theory Spec2Isabelle
  imports Main "HOL-Library.Sublist"
begin

section \<open>The logcat monitor daemon (native/jni/daemon/log\_daemon.c)\<close>

text \<open>
  The daemon tails the output of a logcat process, classifies every line with two
  filters and writes it to the descriptors of the matching listeners. This theory
  embeds the C functions of \<^verbatim>\<open>log_daemon.c\<close> as HOL functions over an explicit
  process state; every system call the code issues is appended to a trace, and what
  the operating system answers is a parameter of the model.
\<close>

subsection \<open>C strings\<close>

text \<open>
  A line buffer is a list of bytes. The C library reads a buffer as a string: the
  bytes before the first NUL. \<^verbatim>\<open>strlen\<close> counts them, and \<^verbatim>\<open>strstr\<close> returns the
  part of the haystack that starts at the first occurrence of the needle, or NULL
  (\<open>None\<close>).
\<close>

definition c_str :: "string \<Rightarrow> string" where
  "c_str buf = takeWhile (\<lambda>c. c \<noteq> CHR 0x00) buf"

definition strlen :: "string \<Rightarrow> nat" where
  "strlen buf = length (c_str buf)"

fun strstr_from :: "string \<Rightarrow> string \<Rightarrow> string option" where
  "strstr_from [] needle = (if needle = [] then Some [] else None)"
| "strstr_from (c # hs) needle =
     (if prefix needle (c # hs) then Some (c # hs) else strstr_from hs needle)"

definition strstr :: "string \<Rightarrow> string \<Rightarrow> string option" where
  "strstr haystack needle = strstr_from (c_str haystack) (c_str needle)"

subsection \<open>The two filters\<close>

definition am_proc_start_filter :: "string \<Rightarrow> bool" where
  "am_proc_start_filter log = (strstr log ''am_proc_start'' \<noteq> None)"

definition magisk_log_filter :: "string \<Rightarrow> bool" where
  "magisk_log_filter log = (\<not> am_proc_start_filter log)"

subsection \<open>Names from headers that are not part of this file\<close>

text \<open>
  \<^verbatim>\<open>magisk.h\<close>, \<^verbatim>\<open>daemon.h\<close> and \<^verbatim>\<open>flags.h\<close> define the paths, the request codes and
  the build flags the daemon uses. Their values are parameters of the model. The two
  request codes are labels of one \<^verbatim>\<open>switch\<close>, so they differ.
\<close>

record config =
  MIRRDIR :: string
  LOGFILE :: string
  LOG_SOCKET :: string
  MAGISK_VERSION :: string
  MAGISK_VER_CODE :: string
  MAGISK_DEBUG :: bool
  HIDE_CONNECT :: int
  HANDSHAKE :: int

subsection \<open>The listener table\<close>

text \<open>
  \<^verbatim>\<open>struct log_listener\<close> pairs a descriptor with a filter; \<^verbatim>\<open>events[]\<close> holds one
  listener for each value of the anonymous enum, so the array is a function on that
  enum. A descriptor of \<open>-1\<close> marks a listener without a sink.
\<close>

datatype event_id = HIDE_EVENT | LOG_EVENT

record log_listener =
  fd :: int
  filter_fn :: "string \<Rightarrow> bool"

definition event_ids :: "event_id list" where
  \<comment> \<open>the indices \<open>0 .. EVENT_NUM - 1\<close>, in the order the loops visit them\<close>
  "event_ids = [HIDE_EVENT, LOG_EVENT]"

subsection \<open>Actions, the operating system and the process state\<close>

datatype open_flag = O_CREAT | O_WRONLY | O_TRUNC | O_CLOEXEC | O_APPEND

datatype thread_fn = Monitor_thread | Logcat_thread

datatype signal = SIGTERM | SIGPIPE | SIGSEGV

text \<open>
  Every call that leaves the process, and every store to a listener's descriptor, is
  recorded in order. \<open>Exec_array argv out pid\<close> is a spawn that returned \<open>pid\<close>, with
  the child's standard output captured on descriptor \<open>out\<close> when there is one.
\<close>

datatype action =
    Setsid
  | Logi string
  | Set_argv0 string
  | Sigaction signal
  | Rename string string
  | Open_file string "open_flag set" nat int
  | Store_fd event_id int
  | Exec_sync "string list"
  | Chmod string nat
  | Pthread_create thread_fn
  | Pthread_detach thread_fn
  | Setup_sockaddr string
  | Socket int
  | Bind int string
  | Listen int nat
  | Accept4 int int
  | Read_int int int
  | Write_int int int
  | Write_fd int string
  | Close int
  | Lock
  | Unlock
  | Exec_array "string list" "int option" int
  | Fdopen int
  | Fclose int
  | Kill int signal
  | Waitpid int

text \<open>
  What a write does is decided outside the process: it succeeds, it fails with an
  error code the caller may read (the daemon never does), or the peer is gone and the
  kernel raises SIGPIPE in the writing thread. The answer may depend on everything
  that happened before, so it is a function of the trace so far and the descriptor.
\<close>

datatype write_result = Written | Write_failed | Broken_pipe

record os =
  write_result_of :: "action list \<Rightarrow> int \<Rightarrow> write_result"
  exec_command_sync :: "string list \<Rightarrow> int"
  xopen_fd :: int
  xsocket_fd :: int
  xbind_ret :: int

datatype sigdisp = SIG_DFL | Sigpipe_handler

record daemon =
  events :: "event_id \<Rightarrow> log_listener"
  log_cmd :: "string option list"
  clear_cmd :: "string option list"
  sigpipe_disp :: sigdisp
  trace :: "action list"

text \<open>A thread either runs on, or the whole process has ended.\<close>

datatype halt = Exit int | Killed signal

datatype result = Running daemon | Halted halt daemon

fun state_of :: "result \<Rightarrow> daemon" where
  "state_of (Running st) = st"
| "state_of (Halted h st) = st"

fun is_running :: "result \<Rightarrow> bool" where
  "is_running (Running st) = True"
| "is_running (Halted h st) = False"

definition initial :: daemon where
  \<comment> \<open>the static initialisers of the file, in a process with the default dispositions\<close>
  "initial =
     \<lparr> events = (\<lambda>i. case i of
                  HIDE_EVENT \<Rightarrow> \<lparr> fd = - 1, filter_fn = am_proc_start_filter \<rparr>
                | LOG_EVENT \<Rightarrow> \<lparr> fd = - 1, filter_fn = magisk_log_filter \<rparr>),
       log_cmd = [], clear_cmd = [], sigpipe_disp = SIG_DFL, trace = [] \<rparr>"

definition emit :: "action \<Rightarrow> daemon \<Rightarrow> daemon" where
  "emit a st = st\<lparr>trace := trace st @ [a]\<rparr>"

definition emits :: "action list \<Rightarrow> daemon \<Rightarrow> daemon" where
  "emits as st = st\<lparr>trace := trace st @ as\<rparr>"

definition set_fd :: "event_id \<Rightarrow> int \<Rightarrow> daemon \<Rightarrow> daemon" where
  \<comment> \<open>\<^verbatim>\<open>events[i].fd = v\<close>\<close>
  "set_fd i v st =
     emit (Store_fd i v) (st\<lparr>events := (events st)(i := (events st i)\<lparr>fd := v\<rparr>)\<rparr>)"

definition new_actions :: "daemon \<Rightarrow> daemon \<Rightarrow> action list" where
  \<comment> \<open>what was recorded between an earlier state and a later one\<close>
  "new_actions st st' = drop (length (trace st)) (trace st')"

subsection \<open>The SIGPIPE handler and writes\<close>

definition sigpipe_handler :: "daemon \<Rightarrow> daemon" where
  "sigpipe_handler st =
     set_fd HIDE_EVENT (- 1) (emit (Close (fd (events st HIDE_EVENT))) st)"

definition raise_sigpipe :: "daemon \<Rightarrow> result" where
  \<comment> \<open>delivery of SIGPIPE to a thread that does not block it\<close>
  "raise_sigpipe st =
     (case sigpipe_disp st of
        SIG_DFL \<Rightarrow> Halted (Killed SIGPIPE) st
      | Sigpipe_handler \<Rightarrow> Running (sigpipe_handler st))"

definition sys_write :: "os \<Rightarrow> int \<Rightarrow> string \<Rightarrow> daemon \<Rightarrow> result" where
  \<comment> \<open>\<^verbatim>\<open>write(d, buf, len)\<close>, its return value unread\<close>
  "sys_write env d buf st =
     (case write_result_of env (trace st) d of
        Broken_pipe \<Rightarrow> raise_sigpipe (emit (Write_fd d buf) st)
      | _ \<Rightarrow> Running (emit (Write_fd d buf) st))"

text \<open>
  Modelled from the spec: \<^verbatim>\<open>write_int\<close> belongs to the utilities, which are not part
  of this file; it is one of the byte-level write helpers and writes the integer to
  the descriptor. It is a write to a socket like any other, so a peer that is gone
  raises SIGPIPE in the calling thread. \<^verbatim>\<open>monitor_thread\<close> blocks that signal before
  it calls the same helper; the main thread, which answers the handshake, does not.
\<close>

definition write_int :: "os \<Rightarrow> int \<Rightarrow> int \<Rightarrow> daemon \<Rightarrow> result" where
  "write_int env d v st =
     (case write_result_of env (trace st) d of
        Broken_pipe \<Rightarrow> raise_sigpipe (emit (Write_int d v) st)
      | _ \<Rightarrow> Running (emit (Write_int d v) st))"

subsection \<open>Publishing one line (logcat\_thread, the block under the lock)\<close>

fun publish_loop :: "os \<Rightarrow> string \<Rightarrow> nat \<Rightarrow> event_id list \<Rightarrow> daemon \<Rightarrow> result" where
  "publish_loop env line len [] st = Running st"
| "publish_loop env line len (i # rest) st =
     (if 0 < fd (events st i) \<and> filter_fn (events st i) line
      then (case sys_write env (fd (events st i)) (take len line) st of
              Running st' \<Rightarrow> publish_loop env line len rest st'
            | Halted h st' \<Rightarrow> Halted h st')
      else publish_loop env line len rest st)"

definition publish :: "os \<Rightarrow> string \<Rightarrow> daemon \<Rightarrow> result" where
  "publish env line st =
     (let len = strlen line in
      case publish_loop env line len event_ids (emit Lock st) of
        Running st' \<Rightarrow> Running (emit Unlock st')
      | Halted h st' \<Rightarrow> Halted h st')"

subsection \<open>Reading the source line by line\<close>

text \<open>
  \<^verbatim>\<open>fgets(line, n, logs)\<close> on the bytes still to come: nothing at end of stream,
  otherwise the bytes up to and including the first newline, but at most \<open>n - 1\<close> of
  them. The result is the buffer's contents and the rest of the stream.
\<close>

definition fgets :: "nat \<Rightarrow> string \<Rightarrow> (string \<times> string) option" where
  "fgets n stream =
     (if stream = [] then None
      else let upto = takeWhile (\<lambda>c. c \<noteq> CHR 0x0A) stream;
               k = (if length upto < length stream then Suc (length upto) else length upto);
               m = min (n - 1) k
           in Some (take m stream, drop m stream))"

definition first_byte :: "string \<Rightarrow> char" where
  \<comment> \<open>\<^verbatim>\<open>line[0]\<close>; an empty string holds its terminator there\<close>
  "first_byte line = (case line of [] \<Rightarrow> CHR 0x00 | c # _ \<Rightarrow> c)"

function stream_loop :: "os \<Rightarrow> string \<Rightarrow> daemon \<Rightarrow> result" where
  "stream_loop env stream st =
     (case fgets 4096 stream of
        None \<Rightarrow> Running st
      | Some (line, rest) \<Rightarrow>
          if first_byte line = CHR ''-'' then stream_loop env rest st
          else (case publish env line st of
                  Running st' \<Rightarrow> stream_loop env rest st'
                | Halted h st' \<Rightarrow> Halted h st'))"
  by pat_completeness auto
termination
proof (relation "measure (\<lambda>(env, stream, st). length stream)")
  show "wf (measure (\<lambda>(env, stream, st). length stream))"
    by simp
next
  fix env :: os and stream :: string and st :: daemon and x2 line rest
  assume "fgets 4096 stream = Some x2" and "(line, rest) = x2"
  then have "stream \<noteq> [] \<and> length rest < length stream"
    by (auto simp: fgets_def Let_def min_def split: if_splits)
  then show "((env, rest, st), (env, stream, st)) \<in> measure (\<lambda>(env, stream, st). length stream)"
    by simp
next
  fix env :: os and stream :: string and st st' :: daemon and x2 line rest
  assume "fgets 4096 stream = Some x2" and "(line, rest) = x2"
  then have "stream \<noteq> [] \<and> length rest < length stream"
    by (auto simp: fgets_def Let_def min_def split: if_splits)
  then show "((env, rest, st'), (env, stream, st)) \<in> measure (\<lambda>(env, stream, st). length stream)"
    by simp
qed

declare stream_loop.simps [simp del]

subsection \<open>The tailer thread\<close>

text \<open>
  Modelled from the spec: the vector helpers \<^verbatim>\<open>vec_init\<close>, \<^verbatim>\<open>vec_push_back\<close>,
  \<^verbatim>\<open>vec_push_back_all\<close>, \<^verbatim>\<open>vec_dup\<close> and \<^verbatim>\<open>vec_entry\<close> belong to the utilities, which
  are not part of this file. A vector is an ordered sequence of pointers: the helpers
  empty it, append one entry, append the arguments before the closing NULL, copy the
  entries, and give the entries as an array. The command vectors end with NULL
  (\<open>None\<close>); a spawned program receives the entries before the first NULL.
\<close>

definition vec_init :: "string option list" where
  "vec_init = []"

definition vec_push_back :: "string option list \<Rightarrow> string option \<Rightarrow> string option list" where
  "vec_push_back v e = v @ [e]"

definition vec_push_back_all :: "string option list \<Rightarrow> string list \<Rightarrow> string option list" where
  "vec_push_back_all v es = v @ map Some es"

definition vec_dup :: "string option list \<Rightarrow> string option list" where
  "vec_dup v = v"

definition vec_entry :: "string option list \<Rightarrow> string list" where
  \<comment> \<open>the array read as an argument vector: all strings before the first NULL\<close>
  "vec_entry v = map the (takeWhile (\<lambda>e. e \<noteq> None) v)"

text \<open>
  One run of the source, as the thread sees it: the process id and the descriptor
  that \<^verbatim>\<open>exec_array\<close> returns, every byte the source prints before its output ends,
  and the process id of the clearing run that follows. When the spawn fails the
  descriptor is still \<open>-1\<close>, as it was set before the call.
\<close>

record session =
  log_pid :: int
  log_fd :: int
  log_output :: string
  clear_pid :: int

text \<open>
  Nothing in the loop tests what the spawn returned. \<^verbatim>\<open>fdopen\<close> of a descriptor that
  is not valid returns NULL, and the first \<^verbatim>\<open>fgets\<close> on that stream is a read
  through a null pointer, which ends the process.
\<close>

definition logcat_body :: "os \<Rightarrow> session \<Rightarrow> daemon \<Rightarrow> result" where
  \<comment> \<open>one pass through the body of \<^verbatim>\<open>while (1)\<close> in \<^verbatim>\<open>logcat_thread\<close>\<close>
  "logcat_body env s st =
     (let st1 = emit (Exec_array (vec_entry (log_cmd st)) (Some (log_fd s)) (log_pid s)) st;
          st2 = emit (Fdopen (log_fd s)) st1
      in if log_fd s < 0 then Halted (Killed SIGSEGV) st2
         else
          (case stream_loop env (log_output s) st2 of
             Halted h st3 \<Rightarrow> Halted h st3
           | Running st3 \<Rightarrow>
               (let st4 = emit (Fclose (log_fd s)) st3;
                    st5 = emit (Kill (log_pid s) SIGTERM) st4;
                    st6 = emit (Waitpid (log_pid s)) st5;
                    st7 = emit (Logi ''magisklogd: logcat output EOF'') st6;
                    st8 = emit (Exec_array (vec_entry (clear_cmd st7)) None (clear_pid s)) st7
                in Running (emit (Waitpid (clear_pid s)) st8))))"

text \<open>
  The loop has no exit of its own. The list of sessions is the part of the future
  that is looked at: the thread works through it, and \<open>Running\<close> for the empty list
  is the thread about to spawn the source once more.
\<close>

fun logcat_thread :: "os \<Rightarrow> session list \<Rightarrow> daemon \<Rightarrow> result" where
  "logcat_thread env [] st = Running st"
| "logcat_thread env (s # ss) st =
     (case logcat_body env s st of
        Running st' \<Rightarrow> logcat_thread env ss st'
      | Halted h st' \<Rightarrow> Halted h st')"

text \<open>
  The same loop over an endless supply of sessions, as a function that is defined
  only where the loop ends: it can end only with the process.
\<close>

partial_function (option) logcat_forever ::
    "os \<Rightarrow> (nat \<Rightarrow> session) \<Rightarrow> nat \<Rightarrow> daemon \<Rightarrow> (halt \<times> daemon) option" where
  "logcat_forever env src n st =
     (case logcat_body env (src n) st of
        Running st' \<Rightarrow> logcat_forever env src (Suc n) st'
      | Halted h st' \<Rightarrow> Some (h, st'))"

subsection \<open>Start-up and the control server (log\_daemon)\<close>

definition logcat_path :: "config \<Rightarrow> string" where
  "logcat_path cfg = MIRRDIR cfg @ ''/system/bin/logcat''"

definition buffers :: "string list" where
  \<comment> \<open>the array \<^verbatim>\<open>b[]\<close>\<close>
  "buffers = [''main'', ''events'', ''crash'']"

definition probe_argv :: "config \<Rightarrow> string \<Rightarrow> string list" where
  "probe_argv cfg b = [logcat_path cfg, ''-b'', b, ''-d'', ''-f'', ''/dev/null'']"

fun probe_loop :: "config \<Rightarrow> os \<Rightarrow> string list \<Rightarrow> daemon \<Rightarrow> daemon" where
  "probe_loop cfg env [] st = st"
| "probe_loop cfg env (b # bs) st =
     (let st1 = emit (Exec_sync (probe_argv cfg b)) st
      in probe_loop cfg env bs
           (if exec_command_sync env (probe_argv cfg b) = 0
            then st1\<lparr>log_cmd := vec_push_back_all (log_cmd st1) [''-b'', b]\<rparr>
            else st1))"

definition streaming_options :: "string list" where
  "streaming_options = [''-v'', ''threadtime'', ''-s'', ''am_proc_start'', ''Magisk'']"

definition log_daemon_setup :: "config \<Rightarrow> os \<Rightarrow> daemon \<Rightarrow> daemon" where
  \<comment> \<open>\<^verbatim>\<open>log_daemon\<close> up to and including the start of the worker threads\<close>
  "log_daemon_setup cfg env st =
     (let st1 = emit Setsid st;
          st2 = emit (Logi (''Magisk v'' @ MAGISK_VERSION cfg @ ''('' @ MAGISK_VER_CODE cfg
                            @ '') logger started\<newline>'')) st1;
          st3 = emit (Set_argv0 ''magisklogd'') st2;
          st4 = emit (Sigaction SIGPIPE) (st3\<lparr>sigpipe_disp := Sigpipe_handler\<rparr>);
          st5 = emit (Rename (LOGFILE cfg) (LOGFILE cfg @ ''.bak'')) st4;
          st6 = set_fd LOG_EVENT (xopen_fd env)
                  (emit (Open_file (LOGFILE cfg)
                           {O_CREAT, O_WRONLY, O_TRUNC, O_CLOEXEC, O_APPEND} 420 (xopen_fd env)) st5);
          st7 = st6\<lparr>log_cmd := vec_push_back vec_init (Some (logcat_path cfg))\<rparr>;
          st8 = probe_loop cfg env buffers st7;
          st9 = emit (Chmod ''/dev/null'' 438) st8;
          st10 = st9\<lparr>clear_cmd := vec_dup (log_cmd st9)\<rparr>;
          st11 = st10\<lparr>log_cmd := vec_push_back_all (log_cmd st10) streaming_options\<rparr>;
          st12 = (if MAGISK_DEBUG cfg
                  then st11\<lparr>log_cmd := vec_push_back (log_cmd st11) (Some ''*:F'')\<rparr>
                  else st11);
          st13 = st12\<lparr>log_cmd := vec_push_back (log_cmd st12) None\<rparr>;
          st14 = st13\<lparr>clear_cmd := vec_push_back (clear_cmd st13) (Some ''-c'')\<rparr>;
          st15 = st14\<lparr>clear_cmd := vec_push_back (clear_cmd st14) None\<rparr>;
          st16 = emit (Pthread_detach Monitor_thread) (emit (Pthread_create Monitor_thread) st15)
      in emit (Pthread_detach Logcat_thread) (emit (Pthread_create Logcat_thread) st16))"

text \<open>
  A connection, as the server sees it: the descriptor \<^verbatim>\<open>xaccept4\<close> returns and the
  integer \<^verbatim>\<open>read_int\<close> reads from it.
\<close>

record connection =
  conn_fd :: int
  request :: int

definition serve :: "config \<Rightarrow> os \<Rightarrow> int \<Rightarrow> connection \<Rightarrow> daemon \<Rightarrow> result" where
  \<comment> \<open>one pass through the body of the accept loop\<close>
  "serve cfg env sockfd c st =
     (let st1 = emit (Accept4 sockfd (conn_fd c)) st;
          st2 = emit (Read_int (conn_fd c) (request c)) st1
      in if request c = HIDE_CONNECT cfg then
           (let st3 = emit Lock st2;
                st4 = emit (Close (fd (events st3 HIDE_EVENT))) st3;
                st5 = set_fd HIDE_EVENT (conn_fd c) st4
            in Running (emit Unlock st5))
         else if request c = HANDSHAKE cfg then
           (case write_int env (conn_fd c) (HANDSHAKE cfg) st2 of
              Running st3 \<Rightarrow> Running (emit (Close (conn_fd c)) st3)
            | Halted h st3 \<Rightarrow> Halted h st3)
         else Running (emit (Close (conn_fd c)) st2))"

fun accept_loop :: "config \<Rightarrow> os \<Rightarrow> int \<Rightarrow> connection list \<Rightarrow> daemon \<Rightarrow> result" where
  "accept_loop cfg env sockfd [] st = Running st"
| "accept_loop cfg env sockfd (c # cs) st =
     (case serve cfg env sockfd c st of
        Running st' \<Rightarrow> accept_loop cfg env sockfd cs st'
      | Halted h st' \<Rightarrow> Halted h st')"

definition log_daemon :: "config \<Rightarrow> os \<Rightarrow> connection list \<Rightarrow> daemon \<Rightarrow> result" where
  "log_daemon cfg env conns st =
     (let st1 = log_daemon_setup cfg env st;
          st2 = emit (Setup_sockaddr (LOG_SOCKET cfg)) st1;
          st3 = emit (Socket (xsocket_fd env)) st2;
          st4 = emit (Bind (xsocket_fd env) (LOG_SOCKET cfg)) st3
      in if xbind_ret env \<noteq> 0 then Halted (Exit 1) st4
         else accept_loop cfg env (xsocket_fd env) conns (emit (Listen (xsocket_fd env) 10) st4))"

subsection \<open>Reading traces\<close>

fun writes_of :: "action list \<Rightarrow> (int \<times> string) list" where
  "writes_of [] = []"
| "writes_of (Write_fd d buf # as) = (d, buf) # writes_of as"
| "writes_of (a # as) = writes_of as"

fun is_publish_action :: "action \<Rightarrow> bool" where
  \<comment> \<open>what publishing a line can record, the handler's work included\<close>
  "is_publish_action Lock = True"
| "is_publish_action Unlock = True"
| "is_publish_action (Write_fd d buf) = True"
| "is_publish_action (Close d) = True"
| "is_publish_action (Store_fd i v) = True"
| "is_publish_action a = False"

definition frame :: "daemon \<Rightarrow> daemon \<Rightarrow> action list \<Rightarrow> bool" where
  \<comment> \<open>the later state differs from the earlier one by the recorded actions and, at
      most, by the descriptor of the first listener\<close>
  "frame st st' d =
     (trace st' = trace st @ d \<and> log_cmd st' = log_cmd st \<and> clear_cmd st' = clear_cmd st
      \<and> sigpipe_disp st' = sigpipe_disp st
      \<and> events st' LOG_EVENT = events st LOG_EVENT
      \<and> filter_fn (events st' HIDE_EVENT) = filter_fn (events st HIDE_EVENT))"

subsection \<open>A sample run\<close>

definition sample_config :: config where
  "sample_config =
     \<lparr> MIRRDIR = ''/sbin/.core/mirror'', LOGFILE = ''/cache/magisk.log'',
       LOG_SOCKET = ''d30138f2310a9fb9c54a3e0c21f58591'', MAGISK_VERSION = ''16.7'',
       MAGISK_VER_CODE = ''1670'', MAGISK_DEBUG = False, HIDE_CONNECT = 12, HANDSHAKE = 13 \<rparr>"

definition os_with_gone_peer :: "int \<Rightarrow> os" where
  \<comment> \<open>the peer of descriptor \<open>p\<close> is gone, the crash buffer does not exist\<close>
  "os_with_gone_peer p =
     \<lparr> write_result_of = (\<lambda>tr d. if d = p then Broken_pipe else Written),
       exec_command_sync = (\<lambda>argv. if ''crash'' \<in> set argv then 1 else 0),
       xopen_fd = 5, xsocket_fd = 6, xbind_ret = 0 \<rparr>"

definition sample_state :: daemon where
  \<comment> \<open>the daemon at work: handler installed, log file on 5, a subscriber on 7\<close>
  "sample_state =
     \<lparr> events = (\<lambda>i. case i of
                  HIDE_EVENT \<Rightarrow> \<lparr> fd = 7, filter_fn = am_proc_start_filter \<rparr>
                | LOG_EVENT \<Rightarrow> \<lparr> fd = 5, filter_fn = magisk_log_filter \<rparr>),
       log_cmd = [Some ''logcat'', None], clear_cmd = [Some ''logcat'', Some ''-c'', None],
       sigpipe_disp = Sigpipe_handler, trace = [] \<rparr>"

definition handshake_input :: connection where
  \<comment> \<open>a client that asks for the handshake on descriptor 9\<close>
  "handshake_input = \<lparr>conn_fd = 9, request = 13\<rparr>"

definition nul_line :: string where
  \<comment> \<open>a line of the source with a NUL byte in it\<close>
  "nul_line = ''I/Magisk: a'' @ [CHR 0x00] @ ''b\<newline>''"

definition nul_start_line :: string where
  \<comment> \<open>a line that names a process start after a NUL byte\<close>
  "nul_start_line = ''ab'' @ [CHR 0x00] @ ''am_proc_start''"

definition sample_session :: session where
  "sample_session =
     \<lparr> log_pid = 100, log_fd = 8,
       log_output = ''--------- beginning of main\<newline>I/Magisk: bar\<newline>'',
       clear_pid = 101 \<rparr>"

subsection \<open>Facts about C strings\<close>

lemma c_str_no_nul: "CHR 0x00 \<notin> set buf \<Longrightarrow> c_str buf = buf"
  unfolding c_str_def by (induction buf) auto

lemma c_str_idem: "c_str (c_str buf) = c_str buf"
  unfolding c_str_def by (rule takeWhile_idem)

lemma strstr_from_sublist: "(strstr_from hs needle \<noteq> None) = sublist needle hs"
proof (induction hs)
  case Nil
  show ?case by simp
next
  case (Cons c hs)
  show ?case
  proof (cases "prefix needle (c # hs)")
    case True
    then show ?thesis by (simp add: sublist_Cons_right)
  next
    case False
    with Cons show ?thesis by (simp add: sublist_Cons_right)
  qed
qed

lemma c_str_literal: "c_str ''am_proc_start'' = ''am_proc_start''"
  by (simp add: c_str_def)

lemma am_filter_sublist: "am_proc_start_filter L = sublist ''am_proc_start'' (c_str L)"
  unfolding am_proc_start_filter_def strstr_def c_str_literal
  by (rule strstr_from_sublist)

lemma first_byte_c_str: "first_byte line \<noteq> CHR ''-'' \<Longrightarrow> first_byte (c_str line) \<noteq> CHR ''-''"
  by (cases line) (auto simp: first_byte_def c_str_def)

subsection \<open>Frames\<close>

lemma take_strlen: "take (strlen L) L = c_str L"
  unfolding strlen_def c_str_def by (rule takeWhile_eq_take [symmetric])

lemma writes_of_append: "writes_of (xs @ ys) = writes_of xs @ writes_of ys"
  by (induction xs rule: writes_of.induct) auto

lemma writes_of_none: "\<forall>a \<in> set xs. \<forall>d buf. a \<noteq> Write_fd d buf \<Longrightarrow> writes_of xs = []"
  by (induction xs rule: writes_of.induct) auto

lemma frame_new_actions: "frame st st' d \<Longrightarrow> new_actions st st' = d"
  by (simp add: frame_def new_actions_def)

lemma frame_refl: "frame st st []"
  by (simp add: frame_def)

lemma frame_trans: "frame st st1 d1 \<Longrightarrow> frame st1 st2 d2 \<Longrightarrow> frame st st2 (d1 @ d2)"
  by (simp add: frame_def)

lemma frame_emit: "frame st (emit a st) [a]"
  by (simp add: frame_def emit_def)

subsection \<open>Publishing\<close>

lemmas publish_defs = publish_def event_ids_def sys_write_def raise_sigpipe_def
  sigpipe_handler_def set_fd_def emit_def Let_def

lemma publish_running:
  "sigpipe_disp st = Sigpipe_handler \<Longrightarrow> is_running (publish env L st)"
  by (simp add: publish_defs split: write_result.splits)

lemma publish_writes:
  "sigpipe_disp st = Sigpipe_handler \<Longrightarrow>
   writes_of (new_actions st (state_of (publish env L st))) =
     [(fd (events st i), c_str L). i \<leftarrow> event_ids, 0 < fd (events st i) \<and> filter_fn (events st i) L]"
  by (simp add: publish_defs new_actions_def take_strlen split: write_result.splits)

lemma publish_frame:
  "frame st (state_of (publish env L st)) (new_actions st (state_of (publish env L st)))"
  by (simp add: publish_defs new_actions_def frame_def split: write_result.splits sigdisp.splits)

lemma publish_actions:
  "a \<in> set (new_actions st (state_of (publish env L st))) \<Longrightarrow> is_publish_action a"
  by (auto simp add: publish_defs new_actions_def split: write_result.splits sigdisp.splits if_splits)

lemma publish_buffers:
  "(d, buf) \<in> set (writes_of (new_actions st (state_of (publish env L st)))) \<Longrightarrow> buf = c_str L"
  by (auto simp add: publish_defs new_actions_def take_strlen split: write_result.splits sigdisp.splits if_splits)

lemma publish_hide_fd:
  "fd (events (state_of (publish env L st)) HIDE_EVENT) = fd (events st HIDE_EVENT)
   \<or> fd (events (state_of (publish env L st)) HIDE_EVENT) = - 1"
  by (simp add: publish_defs split: write_result.splits sigdisp.splits)

lemma publish_broken_hide:
  assumes "sigpipe_disp st = Sigpipe_handler"
    and "0 < fd (events st HIDE_EVENT)" and "filter_fn (events st HIDE_EVENT) L"
    and "write_result_of env (trace st @ [Lock]) (fd (events st HIDE_EVENT)) = Broken_pipe"
  shows "fd (events (state_of (publish env L st)) HIDE_EVENT) = - 1"
    and "count_list (new_actions st (state_of (publish env L st)))
           (Close (fd (events st HIDE_EVENT))) = 1"
  using assms
  by (simp_all add: publish_defs new_actions_def split: write_result.splits)

subsection \<open>Streaming and the tailer loop\<close>

lemma stream_loop_frame:
  "\<exists>d. frame st (state_of (stream_loop env stream st)) d
       \<and> (\<forall>a \<in> set d. is_publish_action a)
       \<and> (\<forall>w \<in> set (writes_of d). first_byte (snd w) \<noteq> CHR ''-'')"
proof (induction env stream st rule: stream_loop.induct)
  case (1 env stream st)
  show ?case
  proof (cases "fgets 4096 stream")
    case None
    then show ?thesis
      by (subst stream_loop.simps) (auto intro: exI [of _ "[]"] simp: frame_refl)
  next
    case (Some p)
    obtain line rest where p: "p = (line, rest)" by (cases p)
    show ?thesis
    proof (cases "first_byte line = CHR ''-''")
      case True
      with 1(1) [OF Some p [symmetric]] Some p show ?thesis
        by (subst stream_loop.simps) simp
    next
      case False
      let ?r = "publish env line st"
      let ?d1 = "new_actions st (state_of ?r)"
      have f1: "frame st (state_of ?r) ?d1" by (rule publish_frame)
      have a1: "\<forall>a \<in> set ?d1. is_publish_action a" using publish_actions by blast
      have w1: "\<forall>w \<in> set (writes_of ?d1). first_byte (snd w) \<noteq> CHR ''-''"
        using publish_buffers first_byte_c_str [OF False] by fastforce
      show ?thesis
      proof (cases ?r)
        case (Halted h st')
        then have "stream_loop env stream st = Halted h st'"
          using Some p False by (subst stream_loop.simps) simp
        with f1 a1 w1 Halted show ?thesis by auto
      next
        case (Running st')
        from 1(2) [OF Some p [symmetric] False Running]
        obtain d2 where f2: "frame st' (state_of (stream_loop env rest st')) d2"
          and a2: "\<forall>a \<in> set d2. is_publish_action a"
          and w2: "\<forall>w \<in> set (writes_of d2). first_byte (snd w) \<noteq> CHR ''-''"
          by blast
        have eq: "stream_loop env stream st = stream_loop env rest st'"
          using Some p False Running by (subst stream_loop.simps) simp
        from f1 Running have f1': "frame st st' ?d1" by simp
        have "frame st (state_of (stream_loop env stream st)) (?d1 @ d2)"
          unfolding eq using f1' f2 by (rule frame_trans)
        moreover have "\<forall>a \<in> set (?d1 @ d2). is_publish_action a"
          using a1 a2 by auto
        moreover have "\<forall>w \<in> set (writes_of (?d1 @ d2)). first_byte (snd w) \<noteq> CHR ''-''"
          using w1 w2 by (auto simp: writes_of_append)
        ultimately show ?thesis by blast
      qed
    qed
  qed
qed

lemma stream_loop_running:
  "sigpipe_disp st = Sigpipe_handler \<Longrightarrow> is_running (stream_loop env stream st)"
proof (induction env stream st rule: stream_loop.induct)
  case (1 env stream st)
  show ?case
  proof (cases "fgets 4096 stream")
    case None
    then show ?thesis by (subst stream_loop.simps) simp
  next
    case (Some p)
    obtain line rest where p: "p = (line, rest)" by (cases p)
    show ?thesis
    proof (cases "first_byte line = CHR ''-''")
      case True
      with 1(1) [OF Some p [symmetric]] 1(3) Some p show ?thesis
        by (subst stream_loop.simps) simp
    next
      case False
      have "is_running (publish env line st)" using 1(3) by (rule publish_running)
      then obtain st' where r: "publish env line st = Running st'"
        by (cases "publish env line st") auto
      have "frame st (state_of (publish env line st)) (new_actions st (state_of (publish env line st)))"
        by (rule publish_frame)
      with r 1(3) have "sigpipe_disp st' = Sigpipe_handler" by (simp add: frame_def)
      from 1(2) [OF Some p [symmetric] False r this] show ?thesis
        using Some p False r by (subst stream_loop.simps) simp
    qed
  qed
qed

lemma logcat_body_frame:
  assumes "sigpipe_disp st = Sigpipe_handler" and "0 \<le> log_fd s"
  shows "\<exists>st' d. logcat_body env s st = Running st'
     \<and> (\<forall>a \<in> set d. is_publish_action a)
     \<and> frame st st'
         ([Exec_array (vec_entry (log_cmd st)) (Some (log_fd s)) (log_pid s), Fdopen (log_fd s)]
          @ d
          @ [Fclose (log_fd s), Kill (log_pid s) SIGTERM, Waitpid (log_pid s),
             Logi ''magisklogd: logcat output EOF'',
             Exec_array (vec_entry (clear_cmd st)) None (clear_pid s), Waitpid (clear_pid s)])"
proof -
  let ?st2 = "emit (Fdopen (log_fd s))
                (emit (Exec_array (vec_entry (log_cmd st)) (Some (log_fd s)) (log_pid s)) st)"
  have f0: "frame st ?st2
      [Exec_array (vec_entry (log_cmd st)) (Some (log_fd s)) (log_pid s), Fdopen (log_fd s)]"
    by (simp add: frame_def emit_def)
  then have disp: "sigpipe_disp ?st2 = Sigpipe_handler"
    using assms(1) by (simp add: frame_def)
  have "is_running (stream_loop env (log_output s) ?st2)"
    using disp by (rule stream_loop_running)
  then obtain st3 where r: "stream_loop env (log_output s) ?st2 = Running st3"
    by (cases "stream_loop env (log_output s) ?st2") auto
  obtain d where f1: "frame ?st2 st3 d" and a: "\<forall>a \<in> set d. is_publish_action a"
    using stream_loop_frame [of ?st2 env "log_output s"] r by auto
  let ?tail = "[Fclose (log_fd s), Kill (log_pid s) SIGTERM, Waitpid (log_pid s),
             Logi ''magisklogd: logcat output EOF'',
             Exec_array (vec_entry (clear_cmd st)) None (clear_pid s), Waitpid (clear_pid s)]"
  let ?st' = "st3\<lparr>trace := trace st3 @ ?tail\<rparr>"
  have cc: "clear_cmd st3 = clear_cmd st" using f0 f1 by (simp add: frame_def)
  have res: "logcat_body env s st = Running ?st'"
    using r cc assms(2) by (simp add: logcat_body_def Let_def emit_def)
  have f2: "frame st3 ?st' ?tail" by (simp add: frame_def)
  have "frame st ?st'
      ([Exec_array (vec_entry (log_cmd st)) (Some (log_fd s)) (log_pid s), Fdopen (log_fd s)]
       @ d @ ?tail)"
    using frame_trans [OF f0 frame_trans [OF f1 f2]] by simp
  with res a show ?thesis by blast
qed

lemma logcat_body_any:
  "\<exists>d. frame st (state_of (logcat_body env s st)) d"
proof -
  let ?st2 = "emit (Fdopen (log_fd s))
                (emit (Exec_array (vec_entry (log_cmd st)) (Some (log_fd s)) (log_pid s)) st)"
  have f0: "frame st ?st2
      [Exec_array (vec_entry (log_cmd st)) (Some (log_fd s)) (log_pid s), Fdopen (log_fd s)]"
    by (simp add: frame_def emit_def)
  show ?thesis
  proof (cases "log_fd s < 0")
    case True
    then have "logcat_body env s st = Halted (Killed SIGSEGV) ?st2"
      by (simp add: logcat_body_def Let_def)
    with f0 show ?thesis by auto
  next
    case valid: False
    obtain d where f1: "frame ?st2 (state_of (stream_loop env (log_output s) ?st2)) d"
      using stream_loop_frame by blast
    show ?thesis
    proof (cases "stream_loop env (log_output s) ?st2")
      case (Halted h st3)
      then have "logcat_body env s st = Halted h st3"
        using valid by (simp add: logcat_body_def Let_def)
      with frame_trans [OF f0 f1] Halted show ?thesis by auto
    next
      case (Running st3)
      then obtain tl where "logcat_body env s st = Running (st3\<lparr>trace := trace st3 @ tl\<rparr>)"
        using valid by (simp add: logcat_body_def Let_def emit_def)
      moreover have "frame st3 (st3\<lparr>trace := trace st3 @ tl\<rparr>) tl" by (simp add: frame_def)
      ultimately show ?thesis
        using frame_trans [OF frame_trans [OF f0 f1]] Running by fastforce
    qed
  qed
qed

lemma logcat_thread_any:
  "\<exists>d. frame st (state_of (logcat_thread env ss st)) d"
proof (induction ss arbitrary: st)
  case Nil
  show ?case using frame_refl by auto
next
  case (Cons s ss)
  obtain d1 where f1: "frame st (state_of (logcat_body env s st)) d1"
    using logcat_body_any by blast
  show ?case
  proof (cases "logcat_body env s st")
    case (Running st1)
    obtain d2 where "frame st1 (state_of (logcat_thread env ss st1)) d2"
      using Cons.IH by blast
    with f1 Running show ?thesis
      using frame_trans by fastforce
  next
    case (Halted h st1)
    with f1 show ?thesis by auto
  qed
qed

lemma logcat_thread_snoc:
  "logcat_thread env (ss @ [s]) st =
     (case logcat_thread env ss st of
        Running st' \<Rightarrow> logcat_body env s st'
      | Halted h st' \<Rightarrow> Halted h st')"
  by (induction ss arbitrary: st) (auto split: result.splits)

lemma logcat_body_failed_spawn:
  "log_fd s < 0 \<Longrightarrow>
   logcat_body env s st =
     Halted (Killed SIGSEGV)
       (emit (Fdopen (log_fd s))
          (emit (Exec_array (vec_entry (log_cmd st)) (Some (log_fd s)) (log_pid s)) st))"
  by (simp add: logcat_body_def Let_def)

lemma logcat_forever_returns:
  assumes "logcat_forever env src n st = Some y"
  shows "sigpipe_disp st \<noteq> Sigpipe_handler \<or> (\<exists>k. log_fd (src k) < 0)"
proof (rule logcat_forever.raw_induct
    [where P = "\<lambda>env src n st y. sigpipe_disp st \<noteq> Sigpipe_handler \<or> (\<exists>k. log_fd (src k) < 0)",
     OF _ assms])
  fix f :: "os \<Rightarrow> (nat \<Rightarrow> session) \<Rightarrow> nat \<Rightarrow> daemon \<Rightarrow> (halt \<times> daemon) option"
    and env src n st y
  assume ih: "\<And>env src n st y. f env src n st = Some y \<Longrightarrow>
                sigpipe_disp st \<noteq> Sigpipe_handler \<or> (\<exists>k. log_fd (src k) < 0)"
    and body: "(case logcat_body env (src n) st of
                  Running st' \<Rightarrow> f env src (Suc n) st'
                | Halted h st' \<Rightarrow> Some (h, st')) = Some y"
  show "sigpipe_disp st \<noteq> Sigpipe_handler \<or> (\<exists>k. log_fd (src k) < 0)"
  proof (rule ccontr)
    assume "\<not> (sigpipe_disp st \<noteq> Sigpipe_handler \<or> (\<exists>k. log_fd (src k) < 0))"
    then have h: "sigpipe_disp st = Sigpipe_handler" and v: "\<And>k. 0 \<le> log_fd (src k)"
      by (auto simp: not_less)
    from logcat_body_frame [OF h v [of n], where env = env]
    obtain st' d where r: "logcat_body env (src n) st = Running st'"
      and f: "frame st st' d"
      by blast
    from f h have d: "sigpipe_disp st' = Sigpipe_handler" by (simp add: frame_def)
    from body r have "f env src (Suc n) st' = Some y" by simp
    from ih [OF this] d obtain k where "log_fd (src k) < 0" by blast
    with v [of k] show False by simp
  qed
qed

lemma logcat_forever_never_returns:
  "sigpipe_disp st = Sigpipe_handler \<Longrightarrow> \<forall>k. 0 \<le> log_fd (src k) \<Longrightarrow>
   logcat_forever env src n st = None"
  using logcat_forever_returns [of env src n st]
  by (cases "logcat_forever env src n st") (auto simp: not_less [symmetric])

subsection \<open>Start-up and the control server\<close>

lemma serve_any: "\<exists>d. frame st (state_of (serve cfg env sockfd c st)) d"
  by (simp add: serve_def Let_def emit_def set_fd_def write_int_def raise_sigpipe_def
      sigpipe_handler_def frame_def split: write_result.splits sigdisp.splits)

lemma accept_loop_any:
  "\<exists>d. frame st (state_of (accept_loop cfg env sockfd cs st)) d"
proof (induction cs arbitrary: st)
  case Nil
  show ?case using frame_refl by auto
next
  case (Cons c cs)
  obtain d1 where f1: "frame st (state_of (serve cfg env sockfd c st)) d1"
    using serve_any by blast
  show ?case
  proof (cases "serve cfg env sockfd c st")
    case (Running st1)
    obtain d2 where "frame st1 (state_of (accept_loop cfg env sockfd cs st1)) d2"
      using Cons.IH by blast
    with f1 Running show ?thesis
      using frame_trans by fastforce
  next
    case (Halted h st1)
    with f1 show ?thesis by auto
  qed
qed

lemma handshake_delivered:
  assumes "request c = HANDSHAKE cfg" and "HANDSHAKE cfg \<noteq> HIDE_CONNECT cfg"
    and "write_result_of env
           (trace st @ [Accept4 sockfd (conn_fd c), Read_int (conn_fd c) (request c)]) (conn_fd c)
         \<noteq> Broken_pipe"
  shows "serve cfg env sockfd c st =
     Running (emits [Accept4 sockfd (conn_fd c), Read_int (conn_fd c) (request c),
                     Write_int (conn_fd c) (HANDSHAKE cfg), Close (conn_fd c)] st)"
  using assms
  by (simp add: serve_def Let_def emit_def emits_def write_int_def split: write_result.splits)

lemma probe_loop_trace:
  "trace (probe_loop cfg env bs st) = trace st @ map (\<lambda>b. Exec_sync (probe_argv cfg b)) bs"
  by (induction bs arbitrary: st) (simp_all add: Let_def emit_def)

lemma probe_loop_events: "events (probe_loop cfg env bs st) = events st"
  by (induction bs arbitrary: st) (simp_all add: Let_def emit_def)

lemma probe_loop_disp: "sigpipe_disp (probe_loop cfg env bs st) = sigpipe_disp st"
  by (induction bs arbitrary: st) (simp_all add: Let_def emit_def)

lemma probe_loop_clear: "clear_cmd (probe_loop cfg env bs st) = clear_cmd st"
  by (induction bs arbitrary: st) (simp_all add: Let_def emit_def)

lemma probe_loop_log_cmd:
  "log_cmd (probe_loop cfg env bs st) =
     log_cmd st @ map Some (concat (map (\<lambda>b. [''-b'', b])
                      (filter (\<lambda>b. exec_command_sync env (probe_argv cfg b) = 0) bs)))"
  by (induction bs arbitrary: st) (simp_all add: Let_def emit_def vec_push_back_all_def)

lemmas probe_loop_facts = probe_loop_trace probe_loop_events probe_loop_disp probe_loop_clear
  probe_loop_log_cmd

lemmas setup_defs = log_daemon_setup_def Let_def emit_def set_fd_def vec_init_def
  vec_push_back_def vec_push_back_all_def vec_dup_def

lemma setup_trace:
  "trace (log_daemon_setup cfg env st) = trace st @
     [Setsid,
      Logi (''Magisk v'' @ MAGISK_VERSION cfg @ ''('' @ MAGISK_VER_CODE cfg
            @ '') logger started\<newline>''),
      Set_argv0 ''magisklogd'', Sigaction SIGPIPE,
      Rename (LOGFILE cfg) (LOGFILE cfg @ ''.bak''),
      Open_file (LOGFILE cfg) {O_CREAT, O_WRONLY, O_TRUNC, O_CLOEXEC, O_APPEND} 420 (xopen_fd env),
      Store_fd LOG_EVENT (xopen_fd env)]
     @ map (\<lambda>b. Exec_sync (probe_argv cfg b)) buffers
     @ [Chmod ''/dev/null'' 438,
        Pthread_create Monitor_thread, Pthread_detach Monitor_thread,
        Pthread_create Logcat_thread, Pthread_detach Logcat_thread]"
  by (simp add: setup_defs probe_loop_facts)

lemma setup_events:
  "events (log_daemon_setup cfg env st) =
     (events st)(LOG_EVENT := (events st LOG_EVENT)\<lparr>fd := xopen_fd env\<rparr>)"
  by (simp add: setup_defs probe_loop_facts)

lemma setup_disp: "sigpipe_disp (log_daemon_setup cfg env st) = Sigpipe_handler"
  by (simp add: setup_defs probe_loop_facts)

lemma setup_log_cmd:
  "log_cmd (log_daemon_setup cfg env st) =
     map Some (logcat_path cfg
               # concat (map (\<lambda>b. [''-b'', b])
                   (filter (\<lambda>b. exec_command_sync env (probe_argv cfg b) = 0) buffers))
               @ streaming_options @ (if MAGISK_DEBUG cfg then [''*:F''] else []))
     @ [None]"
  by (simp add: setup_defs probe_loop_facts)

lemma setup_clear_cmd:
  "clear_cmd (log_daemon_setup cfg env st) =
     map Some (logcat_path cfg
               # concat (map (\<lambda>b. [''-b'', b])
                   (filter (\<lambda>b. exec_command_sync env (probe_argv cfg b) = 0) buffers))
               @ [''-c''])
     @ [None]"
  by (simp add: setup_defs probe_loop_facts)

lemma vec_entry_terminated: "vec_entry (map Some xs @ None # ys) = xs"
  by (induction xs) (simp_all add: vec_entry_def)

lemma logcat_path_length: "18 \<le> length (logcat_path cfg)"
  by (simp add: logcat_path_def)

lemma logcat_path_not_short: "length s < 18 \<Longrightarrow> logcat_path cfg \<noteq> s"
  using logcat_path_length [of cfg] by auto

lemma in_buffer_args:
  "b \<noteq> ''-b'' \<Longrightarrow> (b \<in> set (concat (map (\<lambda>b. [''-b'', b]) bs))) = (b \<in> set bs)"
  by (induction bs) auto

lemma logcat_thread_cycles:
  assumes "sigpipe_disp st = Sigpipe_handler" and "\<forall>s \<in> set ss. 0 \<le> log_fd s"
  shows "\<exists>st' ds. logcat_thread env ss st = Running st' \<and> length ds = length ss
          \<and> (\<forall>d \<in> set ds. \<forall>a \<in> set d. is_publish_action a)
          \<and> frame st st'
              (concat (map (\<lambda>(s, d).
                 [Exec_array (vec_entry (log_cmd st)) (Some (log_fd s)) (log_pid s),
                  Fdopen (log_fd s)]
                 @ d
                 @ [Fclose (log_fd s), Kill (log_pid s) SIGTERM, Waitpid (log_pid s),
                    Logi ''magisklogd: logcat output EOF'',
                    Exec_array (vec_entry (clear_cmd st)) None (clear_pid s),
                    Waitpid (clear_pid s)]) (zip ss ds)))"
  using assms
proof (induction ss arbitrary: st)
  case Nil
  then show ?case by (simp add: frame_refl)
next
  case (Cons s ss)
  have v: "0 \<le> log_fd s" and vs: "\<forall>s \<in> set ss. 0 \<le> log_fd s"
    using Cons.prems(2) by simp_all
  from logcat_body_frame [OF Cons.prems(1) v, where env = env]
  obtain st1 d where b: "logcat_body env s st = Running st1"
    and a: "\<forall>a \<in> set d. is_publish_action a"
    and f: "frame st st1
       ([Exec_array (vec_entry (log_cmd st)) (Some (log_fd s)) (log_pid s), Fdopen (log_fd s)]
        @ d
        @ [Fclose (log_fd s), Kill (log_pid s) SIGTERM, Waitpid (log_pid s),
           Logi ''magisklogd: logcat output EOF'',
           Exec_array (vec_entry (clear_cmd st)) None (clear_pid s), Waitpid (clear_pid s)])"
    by blast
  from f Cons.prems(1) have disp: "sigpipe_disp st1 = Sigpipe_handler"
    and lc: "log_cmd st1 = log_cmd st" and cc: "clear_cmd st1 = clear_cmd st"
    by (simp_all add: frame_def)
  from Cons.IH [OF disp vs] obtain st' ds where
    r: "logcat_thread env ss st1 = Running st'" and l: "length ds = length ss"
    and as: "\<forall>d \<in> set ds. \<forall>a \<in> set d. is_publish_action a"
    and fs: "frame st1 st'
            (concat (map (\<lambda>(s, d).
               [Exec_array (vec_entry (log_cmd st1)) (Some (log_fd s)) (log_pid s),
                Fdopen (log_fd s)]
               @ d
               @ [Fclose (log_fd s), Kill (log_pid s) SIGTERM, Waitpid (log_pid s),
                  Logi ''magisklogd: logcat output EOF'',
                  Exec_array (vec_entry (clear_cmd st1)) None (clear_pid s),
                  Waitpid (clear_pid s)]) (zip ss ds)))"
    by blast
  have "logcat_thread env (s # ss) st = Running st'" using b r by simp
  moreover have "length (d # ds) = length (s # ss)" using l by simp
  moreover have "\<forall>d' \<in> set (d # ds). \<forall>a \<in> set d'. is_publish_action a" using a as by simp
  moreover have "frame st st'
            (concat (map (\<lambda>(s, d).
               [Exec_array (vec_entry (log_cmd st)) (Some (log_fd s)) (log_pid s),
                Fdopen (log_fd s)]
               @ d
               @ [Fclose (log_fd s), Kill (log_pid s) SIGTERM, Waitpid (log_pid s),
                  Logi ''magisklogd: logcat output EOF'',
                  Exec_array (vec_entry (clear_cmd st)) None (clear_pid s),
                  Waitpid (clear_pid s)]) (zip (s # ss) (d # ds))))"
    using frame_trans [OF f fs] lc cc by simp
  ultimately show ?case by blast
qed

lemma handshake_delivered_registry:
  assumes "request c = HANDSHAKE cfg" and "HANDSHAKE cfg \<noteq> HIDE_CONNECT cfg"
    and "write_result_of env
           (trace st @ [Accept4 sockfd (conn_fd c), Read_int (conn_fd c) (request c)]) (conn_fd c)
         \<noteq> Broken_pipe"
  shows "events (state_of (serve cfg env sockfd c st)) = events st"
  using handshake_delivered [OF assms] by (simp add: emits_def)


lemma handshake_gone_peer:
  assumes "request c = HANDSHAKE cfg" and "HANDSHAKE cfg \<noteq> HIDE_CONNECT cfg"
    and "sigpipe_disp st = Sigpipe_handler"
    and "write_result_of env
           (trace st @ [Accept4 sockfd (conn_fd c), Read_int (conn_fd c) (request c)]) (conn_fd c)
         = Broken_pipe"
  shows "serve cfg env sockfd c st =
     Running (emit (Close (conn_fd c))
       (sigpipe_handler
         (emits [Accept4 sockfd (conn_fd c), Read_int (conn_fd c) (request c),
                 Write_int (conn_fd c) (HANDSHAKE cfg)] st)))"
    and "fd (events (state_of (serve cfg env sockfd c st)) HIDE_EVENT) = - 1"
  using assms
  by (simp_all add: serve_def Let_def emit_def emits_def write_int_def raise_sigpipe_def
      sigpipe_handler_def set_fd_def)

lemma handshakes_delivered_registry:
  assumes "\<forall>tr d. write_result_of env tr d \<noteq> Broken_pipe"
    and "HANDSHAKE cfg \<noteq> HIDE_CONNECT cfg"
    and "\<forall>c \<in> set cs. request c = HANDSHAKE cfg"
  shows "is_running (accept_loop cfg env sockfd cs st)
    \<and> events (state_of (accept_loop cfg env sockfd cs st)) = events st"
  using assms(3)
proof (induction cs arbitrary: st)
  case Nil
  show ?case by simp
next
  case (Cons c cs)
  have r: "request c = HANDSHAKE cfg" using Cons.prems by simp
  have w: "write_result_of env
           (trace st @ [Accept4 sockfd (conn_fd c), Read_int (conn_fd c) (request c)]) (conn_fd c)
         \<noteq> Broken_pipe"
    using assms(1) by blast
  let ?st1 = "emits [Accept4 sockfd (conn_fd c), Read_int (conn_fd c) (request c),
                     Write_int (conn_fd c) (HANDSHAKE cfg), Close (conn_fd c)] st"
  have s: "serve cfg env sockfd c st = Running ?st1"
    using handshake_delivered [OF r assms(2) w] .
  have "events ?st1 = events st" by (simp add: emits_def)
  moreover have "is_running (accept_loop cfg env sockfd cs ?st1)
    \<and> events (state_of (accept_loop cfg env sockfd cs ?st1)) = events ?st1"
    using Cons.IH Cons.prems by simp
  ultimately show ?case using s by simp
qed

section \<open>The claims\<close>

text \<open>
  In every theorem below the state is arbitrary unless a premise restricts it. The
  premise \<open>sigpipe_disp st = Sigpipe_handler\<close> holds from \<^verbatim>\<open>sigaction\<close> in
  \<^verbatim>\<open>log_daemon\<close> on (lemma \<open>setup_disp\<close>); nothing changes the disposition later
  (the \<open>frame\<close> lemmas), and the threads start after it.
\<close>

subsection \<open>C1: fan-out\<close>

text \<open>
  C1, as amended. Publishing a line writes the bytes of the line before its first
  NUL byte (\<^verbatim>\<open>strlen\<close> of the buffer decides how much is written), all of them and
  nothing else, once to every listener that has a sink and whose filter accepts the
  line, in table order, and to no other listener; the call returns. The loop takes a
  listener to have a sink when its descriptor is positive (\<open>-1\<close> is the value that
  marks a listener without one), so with no sink attached nothing is written. For a
  line without NUL bytes what is written is the line itself, in full.
\<close>

theorem publish_fanout:
  assumes "sigpipe_disp st = Sigpipe_handler"
  shows "is_running (publish env L st)
    \<and> writes_of (new_actions st (state_of (publish env L st))) =
        [(fd (events st i), c_str L). i \<leftarrow> event_ids, 0 < fd (events st i) \<and> filter_fn (events st i) L]
    \<and> ((\<forall>i. fd (events st i) = - 1) \<longrightarrow> writes_of (new_actions st (state_of (publish env L st))) = [])
    \<and> (CHR 0x00 \<notin> set L \<longrightarrow> c_str L = L)"
  using assms
  by (simp add: publish_running publish_writes c_str_no_nul event_ids_def)

theorem publish_fanout_witness:
  "sigpipe_disp sample_state = Sigpipe_handler
   \<and> is_running (publish (os_with_gone_peer 7) ''I/am_proc_start: foo\<newline>'' sample_state)
   \<and> writes_of (new_actions sample_state
        (state_of (publish (os_with_gone_peer 7) ''I/am_proc_start: foo\<newline>'' sample_state))) =
       [(7, ''I/am_proc_start: foo\<newline>'')]
   \<and> CHR 0x00 \<notin> set ''I/am_proc_start: foo\<newline>''
   \<and> sigpipe_disp (initial\<lparr>sigpipe_disp := Sigpipe_handler\<rparr>) = Sigpipe_handler
   \<and> (\<forall>i. fd (events (initial\<lparr>sigpipe_disp := Sigpipe_handler\<rparr>) i) = - 1)
   \<and> writes_of (new_actions (initial\<lparr>sigpipe_disp := Sigpipe_handler\<rparr>)
        (state_of (publish (os_with_gone_peer 7) ''I/am_proc_start: foo\<newline>''
           (initial\<lparr>sigpipe_disp := Sigpipe_handler\<rparr>)))) = []"
proof -
  have h: "sigpipe_disp sample_state = Sigpipe_handler"
    by (simp add: sample_state_def)
  have f: "am_proc_start_filter ''I/am_proc_start: foo\<newline>''"
    by code_simp
  have n: "CHR 0x00 \<notin> set ''I/am_proc_start: foo\<newline>''"
    by simp
  have 1: "is_running (publish (os_with_gone_peer 7) ''I/am_proc_start: foo\<newline>'' sample_state)
   \<and> writes_of (new_actions sample_state
        (state_of (publish (os_with_gone_peer 7) ''I/am_proc_start: foo\<newline>'' sample_state))) =
       [(7, ''I/am_proc_start: foo\<newline>'')]"
    using publish_fanout [OF h, of "os_with_gone_peer 7" "''I/am_proc_start: foo\<newline>''"] f n
    by (simp add: sample_state_def event_ids_def magisk_log_filter_def)
  have h': "sigpipe_disp (initial\<lparr>sigpipe_disp := Sigpipe_handler\<rparr>) = Sigpipe_handler"
    by simp
  have u: "\<forall>i. fd (events (initial\<lparr>sigpipe_disp := Sigpipe_handler\<rparr>) i) = - 1"
    by (simp add: initial_def split: event_id.splits)
  have 2: "writes_of (new_actions (initial\<lparr>sigpipe_disp := Sigpipe_handler\<rparr>)
        (state_of (publish (os_with_gone_peer 7) ''I/am_proc_start: foo\<newline>''
           (initial\<lparr>sigpipe_disp := Sigpipe_handler\<rparr>)))) = []"
    using publish_fanout [OF h', of "os_with_gone_peer 7" "''I/am_proc_start: foo\<newline>''"] u
    by blast
  from h 1 n h' u 2 show ?thesis by blast
qed

text \<open>
  The claim as first stated, every line written in full, fails for a line that holds
  a NUL byte: the write stops in front of it.
\<close>

theorem publish_fanout_counterexample:
  "sigpipe_disp sample_state = Sigpipe_handler
   \<and> 0 < fd (events sample_state LOG_EVENT)
   \<and> filter_fn (events sample_state LOG_EVENT) nul_line
   \<and> writes_of (new_actions sample_state
        (state_of (publish (os_with_gone_peer 7) nul_line sample_state))) =
       [(5, ''I/Magisk: a'')]
   \<and> writes_of (new_actions sample_state
        (state_of (publish (os_with_gone_peer 7) nul_line sample_state))) \<noteq>
       [(5, nul_line)]"
proof -
  have f: "magisk_log_filter nul_line"
    by code_simp
  have e: "writes_of (new_actions sample_state
        (state_of (publish (os_with_gone_peer 7) nul_line sample_state))) =
       [(5, ''I/Magisk: a'')]"
    by code_simp
  have n: "''I/Magisk: a'' \<noteq> nul_line"
    by (simp add: nul_line_def)
  from f e n show ?thesis
    by (simp add: sample_state_def)
qed

subsection \<open>C2: the dropped-output marker\<close>

text \<open>
  C2. A line that \<^verbatim>\<open>fgets\<close> returns and that begins with \<open>-\<close> is skipped: the loop
  goes on with the rest of the stream in the same state, with nothing recorded for
  the line. Hence no write that the streaming loop ever makes, to the subscriber or
  to the log file, carries a buffer that begins with the marker.
\<close>

theorem dropped_marker_never_published:
  assumes "fgets 4096 stream = Some (line, rest)" and "first_byte line = CHR ''-''"
  shows "stream_loop env stream st = stream_loop env rest st
    \<and> (\<forall>w \<in> set (writes_of (new_actions st' (state_of (stream_loop env' stream' st')))).
          first_byte (snd w) \<noteq> CHR ''-'')"
proof
  show "stream_loop env stream st = stream_loop env rest st"
    using assms by (subst stream_loop.simps) simp
next
  obtain d where "frame st' (state_of (stream_loop env' stream' st')) d"
    and "\<forall>w \<in> set (writes_of d). first_byte (snd w) \<noteq> CHR ''-''"
    using stream_loop_frame by blast
  then show "\<forall>w \<in> set (writes_of (new_actions st' (state_of (stream_loop env' stream' st')))).
          first_byte (snd w) \<noteq> CHR ''-''"
    by (simp add: frame_new_actions)
qed

theorem dropped_marker_never_published_witness:
  "fgets 4096 (log_output sample_session) =
     Some (''--------- beginning of main\<newline>'', ''I/Magisk: bar\<newline>'')
   \<and> first_byte ''--------- beginning of main\<newline>'' = CHR ''-''
   \<and> writes_of (new_actions sample_state
        (state_of (stream_loop (os_with_gone_peer 7) (log_output sample_session) sample_state))) =
       [(5, ''I/Magisk: bar\<newline>'')]"
proof -
  have h1: "fgets 4096 (log_output sample_session) =
     Some (''--------- beginning of main\<newline>'', ''I/Magisk: bar\<newline>'')"
    by code_simp
  have h2: "first_byte ''--------- beginning of main\<newline>'' = CHR ''-''"
    by (simp add: first_byte_def)
  have e: "writes_of (new_actions sample_state
        (state_of (stream_loop (os_with_gone_peer 7) ''I/Magisk: bar\<newline>'' sample_state))) =
       [(5, ''I/Magisk: bar\<newline>'')]"
    by code_simp
  from dropped_marker_never_published [OF h1 h2, of "os_with_gone_peer 7" sample_state]
  have "stream_loop (os_with_gone_peer 7) (log_output sample_session) sample_state =
        stream_loop (os_with_gone_peer 7) ''I/Magisk: bar\<newline>'' sample_state"
    by simp
  with h1 h2 e show ?thesis by simp
qed

subsection \<open>C3: attaching a subscriber\<close>

text \<open>
  C3. For a connection that sends \<^verbatim>\<open>HIDE_CONNECT\<close> the server takes the lock, closes
  the descriptor the first listener held, stores the connection's descriptor in its
  place and releases the lock, in this order and with nothing else in between. The
  old descriptor is closed exactly once, the other listener and both filters stay as
  they were, and the connection is not closed (its descriptor is a new one, so it
  differs from the old sink).
\<close>

theorem attach_replaces_sink:
  assumes "request c = HIDE_CONNECT cfg"
  shows "\<exists>st'. serve cfg env sockfd c st = Running st'
    \<and> new_actions st st' =
        [Accept4 sockfd (conn_fd c), Read_int (conn_fd c) (request c),
         Lock, Close (fd (events st HIDE_EVENT)), Store_fd HIDE_EVENT (conn_fd c), Unlock]
    \<and> count_list (new_actions st st') (Close (fd (events st HIDE_EVENT))) = 1
    \<and> fd (events st' HIDE_EVENT) = conn_fd c
    \<and> filter_fn (events st' HIDE_EVENT) = filter_fn (events st HIDE_EVENT)
    \<and> events st' LOG_EVENT = events st LOG_EVENT
    \<and> (conn_fd c \<noteq> fd (events st HIDE_EVENT) \<longrightarrow> Close (conn_fd c) \<notin> set (new_actions st st'))"
  using assms
  by (simp add: serve_def Let_def emit_def set_fd_def new_actions_def)

theorem attach_replaces_sink_witness:
  "request \<lparr>conn_fd = 9, request = 12\<rparr> = HIDE_CONNECT sample_config
   \<and> (\<exists>st'. serve sample_config (os_with_gone_peer 7) 6 \<lparr>conn_fd = 9, request = 12\<rparr> sample_state
               = Running st'
          \<and> new_actions sample_state st' =
              [Accept4 6 9, Read_int 9 12, Lock, Close 7, Store_fd HIDE_EVENT 9, Unlock]
          \<and> fd (events st' HIDE_EVENT) = 9
          \<and> fd (events st' LOG_EVENT) = 5)"
proof -
  have h: "request \<lparr>conn_fd = 9, request = 12\<rparr> = HIDE_CONNECT sample_config"
    by (simp add: sample_config_def)
  have s: "fd (events sample_state HIDE_EVENT) = 7" "fd (events sample_state LOG_EVENT) = 5"
    by (simp_all add: sample_state_def)
  from attach_replaces_sink [OF h, of "os_with_gone_peer 7" 6 sample_state]
  obtain st' where "serve sample_config (os_with_gone_peer 7) 6 \<lparr>conn_fd = 9, request = 12\<rparr>
      sample_state = Running st'"
    and "new_actions sample_state st' =
        [Accept4 6 9, Read_int 9 12, Lock, Close 7, Store_fd HIDE_EVENT 9, Unlock]"
    and "fd (events st' HIDE_EVENT) = 9" and "events st' LOG_EVENT = events sample_state LOG_EVENT"
    unfolding s by auto
  with h s show ?thesis by simp
qed

subsection \<open>C4: the handshake\<close>

text \<open>
  C4. A handshake request is answered with \<^verbatim>\<open>HANDSHAKE\<close> and the connection is
  closed; as long as the answers are delivered the listener table is unchanged, for
  any number of requests (lemmas \<open>handshake_delivered\<close>, \<open>handshake_delivered_registry\<close>
  and \<open>handshakes_delivered_registry\<close>). When the client is gone before the answer is
  written, the write raises SIGPIPE in the main thread, the handler runs, and the
  subscriber on the first listener is closed and removed although it has done
  nothing (lemma \<open>handshake_gone_peer\<close>): here with a healthy subscriber on
  descriptor 7 and the handshake on descriptor 9.
\<close>

theorem handshake_to_gone_peer_clears_listener:
  "request handshake_input = HANDSHAKE sample_config
   \<and> fd (events sample_state HIDE_EVENT) = 7
   \<and> write_result_of (os_with_gone_peer 9) [] 7 = Written
   \<and> new_actions sample_state
        (state_of (serve sample_config (os_with_gone_peer 9) 6 handshake_input sample_state)) =
       [Accept4 6 9, Read_int 9 13, Write_int 9 13, Close 7, Store_fd HIDE_EVENT (- 1), Close 9]
   \<and> fd (events (state_of (serve sample_config (os_with_gone_peer 9) 6 handshake_input
        sample_state)) HIDE_EVENT) = - 1"
  by (simp add: handshake_input_def sample_config_def sample_state_def os_with_gone_peer_def
      serve_def Let_def emit_def write_int_def raise_sigpipe_def sigpipe_handler_def set_fd_def
      new_actions_def)

subsection \<open>C5: the tailer loop\<close>

text \<open>
  C5. With the handler installed, and as long as every spawn of the source hands
  back a valid descriptor for its output, the tailer never leaves its loop. Each
  pass spawns the source with its output captured, publishes the lines until the
  stream ends, closes the stream, sends SIGTERM to the source and waits for it, then
  spawns the clearing command and waits for it; the next pass follows at once with a
  new spawn of the source. Between the spawn and the end of the stream only
  publishing is recorded. After any number of passes the thread is still running,
  one more session means one more pass, and over an endless supply of sessions the
  loop does not return. (A spawn that hands back no descriptor ends the process at
  the first read, lemma \<open>logcat_body_failed_spawn\<close>; there is no end of stream then.)
\<close>

theorem tailer_cycle:
  assumes "sigpipe_disp st = Sigpipe_handler"
    and "\<forall>s \<in> set ss. 0 \<le> log_fd s"
    and "\<forall>k. 0 \<le> log_fd (src k)"
  shows "is_running (logcat_thread env ss st)
    \<and> (\<exists>ds. length ds = length ss
          \<and> (\<forall>d \<in> set ds. \<forall>a \<in> set d. is_publish_action a)
          \<and> new_actions st (state_of (logcat_thread env ss st)) =
              concat (map (\<lambda>(s, d).
                 [Exec_array (vec_entry (log_cmd st)) (Some (log_fd s)) (log_pid s),
                  Fdopen (log_fd s)]
                 @ d
                 @ [Fclose (log_fd s), Kill (log_pid s) SIGTERM, Waitpid (log_pid s),
                    Logi ''magisklogd: logcat output EOF'',
                    Exec_array (vec_entry (clear_cmd st)) None (clear_pid s),
                    Waitpid (clear_pid s)]) (zip ss ds)))
    \<and> logcat_thread env (ss @ [s]) st = logcat_body env s (state_of (logcat_thread env ss st))
    \<and> logcat_forever env src n st = None"
proof -
  from logcat_thread_cycles [OF assms(1,2), of env]
  obtain st' ds where r: "logcat_thread env ss st = Running st'" and "length ds = length ss"
    and "\<forall>d \<in> set ds. \<forall>a \<in> set d. is_publish_action a"
    and "frame st st'
              (concat (map (\<lambda>(s, d).
                 [Exec_array (vec_entry (log_cmd st)) (Some (log_fd s)) (log_pid s),
                  Fdopen (log_fd s)]
                 @ d
                 @ [Fclose (log_fd s), Kill (log_pid s) SIGTERM, Waitpid (log_pid s),
                    Logi ''magisklogd: logcat output EOF'',
                    Exec_array (vec_entry (clear_cmd st)) None (clear_pid s),
                    Waitpid (clear_pid s)]) (zip ss ds)))"
    by blast
  moreover have "logcat_thread env (ss @ [s]) st = logcat_body env s (state_of (logcat_thread env ss st))"
    using r by (simp add: logcat_thread_snoc)
  moreover have "logcat_forever env src n st = None"
    using assms(1,3) by (rule logcat_forever_never_returns)
  ultimately show ?thesis
    by (auto simp: frame_new_actions)
qed

theorem tailer_cycle_witness:
  "sigpipe_disp sample_state = Sigpipe_handler
   \<and> 0 \<le> log_fd sample_session
   \<and> is_running (logcat_thread (os_with_gone_peer 7) [sample_session] sample_state)
   \<and> new_actions sample_state
        (state_of (logcat_thread (os_with_gone_peer 7) [sample_session] sample_state)) =
       [Exec_array [''logcat''] (Some 8) 100, Fdopen 8,
        Lock, Write_fd 5 ''I/Magisk: bar\<newline>'', Unlock,
        Fclose 8, Kill 100 SIGTERM, Waitpid 100, Logi ''magisklogd: logcat output EOF'',
        Exec_array [''logcat'', ''-c''] None 101, Waitpid 101]
   \<and> logcat_forever (os_with_gone_peer 7) (\<lambda>k. sample_session) 0 sample_state = None"
proof -
  have h: "sigpipe_disp sample_state = Sigpipe_handler"
    by (simp add: sample_state_def)
  have v0: "0 \<le> log_fd sample_session"
    by (simp add: sample_session_def)
  then have v: "\<forall>s \<in> set [sample_session]. 0 \<le> log_fd s"
    and w: "\<forall>k. 0 \<le> log_fd ((\<lambda>k. sample_session) k)"
    by simp_all
  have e: "new_actions sample_state
        (state_of (logcat_thread (os_with_gone_peer 7) [sample_session] sample_state)) =
       [Exec_array [''logcat''] (Some 8) 100, Fdopen 8,
        Lock, Write_fd 5 ''I/Magisk: bar\<newline>'', Unlock,
        Fclose 8, Kill 100 SIGTERM, Waitpid 100, Logi ''magisklogd: logcat output EOF'',
        Exec_array [''logcat'', ''-c''] None 101, Waitpid 101]"
    by code_simp
  from tailer_cycle [OF h v w, of "os_with_gone_peer 7" sample_session 0]
  have "is_running (logcat_thread (os_with_gone_peer 7) [sample_session] sample_state)"
    and "logcat_forever (os_with_gone_peer 7) (\<lambda>k. sample_session) 0 sample_state = None"
    by blast+
  with h v0 e show ?thesis by simp
qed

subsection \<open>C6: the command vectors\<close>

text \<open>
  C6. After start-up the source's argument vector is the logcat path, then \<open>-b\<close> and
  the name for exactly those of the buffers main, events and crash whose dry run
  returned 0, then the streaming options. The clearing vector is the same path and
  the same buffer arguments followed by \<open>-c\<close>, and holds none of the streaming
  options. One of the three buffer names occurs in either vector if and only if its
  dry run returned 0. Neither the tailer nor the control server changes the vectors
  afterwards.
\<close>

theorem command_vectors:
  "vec_entry (log_cmd (log_daemon_setup cfg env st)) =
     logcat_path cfg
     # concat (map (\<lambda>b. [''-b'', b])
         (filter (\<lambda>b. exec_command_sync env (probe_argv cfg b) = 0) buffers))
     @ streaming_options @ (if MAGISK_DEBUG cfg then [''*:F''] else [])
   \<and> vec_entry (clear_cmd (log_daemon_setup cfg env st)) =
     logcat_path cfg
     # concat (map (\<lambda>b. [''-b'', b])
         (filter (\<lambda>b. exec_command_sync env (probe_argv cfg b) = 0) buffers))
     @ [''-c'']
   \<and> list_all (\<lambda>b. (b \<in> set (vec_entry (log_cmd (log_daemon_setup cfg env st))))
                     = (exec_command_sync env (probe_argv cfg b) = 0)) buffers
   \<and> list_all (\<lambda>b. (b \<in> set (vec_entry (clear_cmd (log_daemon_setup cfg env st))))
                     = (exec_command_sync env (probe_argv cfg b) = 0)) buffers
   \<and> list_all (\<lambda>opt. opt \<notin> set (vec_entry (clear_cmd (log_daemon_setup cfg env st))))
        (streaming_options @ [''*:F''])
   \<and> log_cmd (state_of (logcat_thread env' ss (log_daemon_setup cfg env st)))
        = log_cmd (log_daemon_setup cfg env st)
   \<and> clear_cmd (state_of (logcat_thread env' ss (log_daemon_setup cfg env st)))
        = clear_cmd (log_daemon_setup cfg env st)
   \<and> log_cmd (state_of (accept_loop cfg env' sockfd cs (log_daemon_setup cfg env st)))
        = log_cmd (log_daemon_setup cfg env st)
   \<and> clear_cmd (state_of (accept_loop cfg env' sockfd cs (log_daemon_setup cfg env st)))
        = clear_cmd (log_daemon_setup cfg env st)"
proof -
  let ?ok = "\<lambda>b. exec_command_sync env (probe_argv cfg b) = 0"
  let ?args = "concat (map (\<lambda>b. [''-b'', b]) (filter ?ok buffers))"
  have l: "vec_entry (log_cmd (log_daemon_setup cfg env st)) =
     logcat_path cfg # ?args @ streaming_options @ (if MAGISK_DEBUG cfg then [''*:F''] else [])"
    unfolding setup_log_cmd by (rule vec_entry_terminated)
  have c: "vec_entry (clear_cmd (log_daemon_setup cfg env st)) = logcat_path cfg # ?args @ [''-c'']"
    unfolding setup_clear_cmd by (rule vec_entry_terminated)
  have m: "\<And>b. b \<in> set buffers \<Longrightarrow> (b \<in> set ?args) = ?ok b"
    by (subst in_buffer_args) (auto simp: buffers_def)
  have n: "\<And>opt. opt \<in> set (streaming_options @ [''*:F'']) \<Longrightarrow> opt \<notin> set ?args"
    by (subst in_buffer_args) (auto simp: buffers_def streaming_options_def)
  have p: "\<And>s. s \<in> set (buffers @ streaming_options @ [''*:F'']) \<Longrightarrow> logcat_path cfg \<noteq> s"
    by (rule logcat_path_not_short) (auto simp: buffers_def streaming_options_def)
  have 1: "list_all (\<lambda>b. (b \<in> set (vec_entry (log_cmd (log_daemon_setup cfg env st)))) = ?ok b) buffers"
    unfolding l list_all_iff
  proof
    fix b assume b: "b \<in> set buffers"
    then have "b \<notin> set streaming_options" and "b \<noteq> ''*:F''"
      by (auto simp: buffers_def streaming_options_def)
    moreover have "logcat_path cfg \<noteq> b" using p b by auto
    ultimately show "(b \<in> set (logcat_path cfg # ?args @ streaming_options
         @ (if MAGISK_DEBUG cfg then [''*:F''] else []))) = ?ok b"
      using m [OF b] by auto
  qed
  have 2: "list_all (\<lambda>b. (b \<in> set (vec_entry (clear_cmd (log_daemon_setup cfg env st)))) = ?ok b) buffers"
    unfolding c list_all_iff
  proof
    fix b assume b: "b \<in> set buffers"
    then have "b \<noteq> ''-c''" by (auto simp: buffers_def)
    moreover have "logcat_path cfg \<noteq> b" using p b by auto
    ultimately show "(b \<in> set (logcat_path cfg # ?args @ [''-c''])) = ?ok b"
      using m [OF b] by auto
  qed
  have 3: "list_all (\<lambda>opt. opt \<notin> set (vec_entry (clear_cmd (log_daemon_setup cfg env st))))
        (streaming_options @ [''*:F''])"
    unfolding c list_all_iff
  proof
    fix opt assume b: "opt \<in> set (streaming_options @ [''*:F''])"
    then have "opt \<noteq> ''-c''" by (auto simp: streaming_options_def)
    moreover have "logcat_path cfg \<noteq> opt" using p b by auto
    ultimately show "opt \<notin> set (logcat_path cfg # ?args @ [''-c''])"
      using n [OF b] by auto
  qed
  obtain d1 where "frame (log_daemon_setup cfg env st)
      (state_of (logcat_thread env' ss (log_daemon_setup cfg env st))) d1"
    using logcat_thread_any by blast
  then have 4: "log_cmd (state_of (logcat_thread env' ss (log_daemon_setup cfg env st)))
        = log_cmd (log_daemon_setup cfg env st)"
    and 5: "clear_cmd (state_of (logcat_thread env' ss (log_daemon_setup cfg env st)))
        = clear_cmd (log_daemon_setup cfg env st)"
    by (simp_all add: frame_def)
  obtain d2 where "frame (log_daemon_setup cfg env st)
      (state_of (accept_loop cfg env' sockfd cs (log_daemon_setup cfg env st))) d2"
    using accept_loop_any by blast
  then have 6: "log_cmd (state_of (accept_loop cfg env' sockfd cs (log_daemon_setup cfg env st)))
        = log_cmd (log_daemon_setup cfg env st)"
    and 7: "clear_cmd (state_of (accept_loop cfg env' sockfd cs (log_daemon_setup cfg env st)))
        = clear_cmd (log_daemon_setup cfg env st)"
    by (simp_all add: frame_def)
  from l c 1 2 3 4 5 6 7 show ?thesis by blast
qed

theorem command_vectors_witness:
  "vec_entry (log_cmd (log_daemon_setup sample_config (os_with_gone_peer 7) initial)) =
     [''/sbin/.core/mirror/system/bin/logcat'', ''-b'', ''main'', ''-b'', ''events'',
      ''-v'', ''threadtime'', ''-s'', ''am_proc_start'', ''Magisk'']
   \<and> vec_entry (clear_cmd (log_daemon_setup sample_config (os_with_gone_peer 7) initial)) =
     [''/sbin/.core/mirror/system/bin/logcat'', ''-b'', ''main'', ''-b'', ''events'', ''-c'']"
proof -
  have ok: "filter (\<lambda>b. exec_command_sync (os_with_gone_peer 7) (probe_argv sample_config b) = 0)
              buffers = [''main'', ''events'']"
    by (simp add: buffers_def os_with_gone_peer_def probe_argv_def logcat_path_def sample_config_def)
  have c: "logcat_path sample_config = ''/sbin/.core/mirror/system/bin/logcat''"
    "MAGISK_DEBUG sample_config = False"
    by (simp_all add: logcat_path_def sample_config_def)
  from command_vectors [of sample_config "os_with_gone_peer 7" initial]
  have "vec_entry (log_cmd (log_daemon_setup sample_config (os_with_gone_peer 7) initial)) =
     logcat_path sample_config
     # concat (map (\<lambda>b. [''-b'', b])
         (filter (\<lambda>b. exec_command_sync (os_with_gone_peer 7) (probe_argv sample_config b) = 0) buffers))
     @ streaming_options @ (if MAGISK_DEBUG sample_config then [''*:F''] else [])"
    and "vec_entry (clear_cmd (log_daemon_setup sample_config (os_with_gone_peer 7) initial)) =
     logcat_path sample_config
     # concat (map (\<lambda>b. [''-b'', b])
         (filter (\<lambda>b. exec_command_sync (os_with_gone_peer 7) (probe_argv sample_config b) = 0) buffers))
     @ [''-c'']"
    by blast+
  then show ?thesis unfolding ok c by (simp add: streaming_options_def)
qed

subsection \<open>C7: a subscriber that is gone\<close>

text \<open>
  C7. When the line goes to the subscriber and the write (the first action after
  the lock is taken) finds the peer gone, the handler closes that descriptor, once,
  and stores \<open>-1\<close> in the subscriber's listener; the log file's listener is
  untouched and the call returns with the process alive. Every later publish returns
  as well and writes to the log file's listener alone. The handler names the first
  listener, the only one a subscriber can attach to.
\<close>

theorem broken_subscriber_is_cleared:
  assumes "sigpipe_disp st = Sigpipe_handler"
    and "0 < fd (events st HIDE_EVENT)" and "filter_fn (events st HIDE_EVENT) L"
    and "write_result_of env (trace st @ [Lock]) (fd (events st HIDE_EVENT)) = Broken_pipe"
  shows "\<exists>st'. publish env L st = Running st'
    \<and> (fd (events st HIDE_EVENT), c_str L) \<in> set (writes_of (new_actions st st'))
    \<and> count_list (new_actions st st') (Close (fd (events st HIDE_EVENT))) = 1
    \<and> fd (events st' HIDE_EVENT) = - 1
    \<and> events st' LOG_EVENT = events st LOG_EVENT
    \<and> (\<forall>env' L'. is_running (publish env' L' st')
          \<and> writes_of (new_actions st' (state_of (publish env' L' st'))) =
              (if 0 < fd (events st LOG_EVENT) \<and> filter_fn (events st LOG_EVENT) L'
               then [(fd (events st LOG_EVENT), c_str L')] else []))"
proof -
  have "is_running (publish env L st)" using assms(1) by (rule publish_running)
  then obtain st' where r: "publish env L st = Running st'"
    by (cases "publish env L st") auto
  have fr: "frame st st' (new_actions st st')"
    using publish_frame [of st env L] r by simp
  then have disp: "sigpipe_disp st' = Sigpipe_handler" and lg: "events st' LOG_EVENT = events st LOG_EVENT"
    using assms(1) by (simp_all add: frame_def)
  have hide: "fd (events st' HIDE_EVENT) = - 1"
    using publish_broken_hide(1) [OF assms] r by simp
  have cnt: "count_list (new_actions st st') (Close (fd (events st HIDE_EVENT))) = 1"
    using publish_broken_hide(2) [OF assms] r by simp
  have wr: "(fd (events st HIDE_EVENT), c_str L) \<in> set (writes_of (new_actions st st'))"
    using publish_writes [OF assms(1), of env L] r assms(2,3) by (simp add: event_ids_def)
  have nxt: "\<forall>env' L'. is_running (publish env' L' st')
          \<and> writes_of (new_actions st' (state_of (publish env' L' st'))) =
              (if 0 < fd (events st LOG_EVENT) \<and> filter_fn (events st LOG_EVENT) L'
               then [(fd (events st LOG_EVENT), c_str L')] else [])"
    using publish_running [OF disp] publish_writes [OF disp] hide lg
    by (simp add: event_ids_def)
  from r wr cnt hide lg nxt show ?thesis by blast
qed

theorem broken_subscriber_is_cleared_witness:
  "sigpipe_disp sample_state = Sigpipe_handler
   \<and> 0 < fd (events sample_state HIDE_EVENT)
   \<and> filter_fn (events sample_state HIDE_EVENT) ''I/am_proc_start: foo\<newline>''
   \<and> write_result_of (os_with_gone_peer 7) (trace sample_state @ [Lock])
        (fd (events sample_state HIDE_EVENT)) = Broken_pipe
   \<and> (\<exists>st'. publish (os_with_gone_peer 7) ''I/am_proc_start: foo\<newline>'' sample_state = Running st'
          \<and> count_list (new_actions sample_state st') (Close 7) = 1
          \<and> fd (events st' HIDE_EVENT) = - 1
          \<and> fd (events st' LOG_EVENT) = 5
          \<and> writes_of (new_actions st' (state_of (publish (os_with_gone_peer 7)
                ''I/am_proc_start: bar\<newline>'' st'))) = [])"
proof -
  have h1: "sigpipe_disp sample_state = Sigpipe_handler"
    and h2: "0 < fd (events sample_state HIDE_EVENT)"
    and h4: "write_result_of (os_with_gone_peer 7) (trace sample_state @ [Lock])
        (fd (events sample_state HIDE_EVENT)) = Broken_pipe"
    by (simp_all add: sample_state_def os_with_gone_peer_def)
  have f: "am_proc_start_filter ''I/am_proc_start: foo\<newline>''"
    by code_simp
  then have h3: "filter_fn (events sample_state HIDE_EVENT) ''I/am_proc_start: foo\<newline>''"
    by (simp add: sample_state_def)
  have g: "am_proc_start_filter ''I/am_proc_start: bar\<newline>''"
    by code_simp
  have s: "fd (events sample_state HIDE_EVENT) = 7" "fd (events sample_state LOG_EVENT) = 5"
    "filter_fn (events sample_state LOG_EVENT) = magisk_log_filter"
    by (simp_all add: sample_state_def)
  from broken_subscriber_is_cleared [OF h1 h2 h3 h4]
  obtain st' where "publish (os_with_gone_peer 7) ''I/am_proc_start: foo\<newline>'' sample_state = Running st'"
    and "count_list (new_actions sample_state st') (Close 7) = 1"
    and "fd (events st' HIDE_EVENT) = - 1"
    and "events st' LOG_EVENT = events sample_state LOG_EVENT"
    and "writes_of (new_actions st' (state_of (publish (os_with_gone_peer 7)
                ''I/am_proc_start: bar\<newline>'' st'))) =
         (if 0 < fd (events sample_state LOG_EVENT)
              \<and> filter_fn (events sample_state LOG_EVENT) ''I/am_proc_start: bar\<newline>''
          then [(fd (events sample_state LOG_EVENT), c_str ''I/am_proc_start: bar\<newline>'')] else [])"
    unfolding s by blast
  with h1 h2 h3 h4 g s show ?thesis by (simp add: magisk_log_filter_def)
qed

subsection \<open>C8: bind fails\<close>

text \<open>
  C8. When \<^verbatim>\<open>xbind\<close> returns a value other than 0 the process exits with status 1
  straight after the call: the socket is never listened on and no connection is
  accepted, whatever connections are waiting.
\<close>

theorem bind_failure_is_fatal:
  assumes "xbind_ret env \<noteq> 0"
  shows "\<exists>st'. log_daemon cfg env conns st = Halted (Exit 1) st'
    \<and> new_actions st st' = new_actions st (log_daemon_setup cfg env st)
        @ [Setup_sockaddr (LOG_SOCKET cfg), Socket (xsocket_fd env),
           Bind (xsocket_fd env) (LOG_SOCKET cfg)]
    \<and> Listen (xsocket_fd env) 10 \<notin> set (new_actions st st')
    \<and> (\<forall>c \<in> set conns. Accept4 (xsocket_fd env) (conn_fd c) \<notin> set (new_actions st st'))"
  using assms
  by (auto simp add: log_daemon_def Let_def emit_def new_actions_def setup_trace buffers_def)

theorem bind_failure_is_fatal_witness:
  "xbind_ret ((os_with_gone_peer 7)\<lparr>xbind_ret := - 1\<rparr>) \<noteq> 0
   \<and> (\<exists>st'. log_daemon sample_config ((os_with_gone_peer 7)\<lparr>xbind_ret := - 1\<rparr>)
               [\<lparr>conn_fd = 9, request = 13\<rparr>] initial = Halted (Exit 1) st'
          \<and> last (trace st') = Bind 6 (LOG_SOCKET sample_config)
          \<and> Listen 6 10 \<notin> set (trace st')
          \<and> Accept4 6 9 \<notin> set (trace st'))"
proof -
  have h: "xbind_ret ((os_with_gone_peer 7)\<lparr>xbind_ret := - 1\<rparr>) \<noteq> 0"
    by simp
  have x: "xsocket_fd ((os_with_gone_peer 7)\<lparr>xbind_ret := - 1\<rparr>) = 6"
    by (simp add: os_with_gone_peer_def)
  have t: "new_actions initial st' = trace st'" for st'
    by (simp add: new_actions_def initial_def)
  from bind_failure_is_fatal [OF h, of sample_config "[\<lparr>conn_fd = 9, request = 13\<rparr>]" initial]
  obtain st' where "log_daemon sample_config ((os_with_gone_peer 7)\<lparr>xbind_ret := - 1\<rparr>)
               [\<lparr>conn_fd = 9, request = 13\<rparr>] initial = Halted (Exit 1) st'"
    and "trace st' = new_actions initial
           (log_daemon_setup sample_config ((os_with_gone_peer 7)\<lparr>xbind_ret := - 1\<rparr>) initial)
        @ [Setup_sockaddr (LOG_SOCKET sample_config), Socket 6, Bind 6 (LOG_SOCKET sample_config)]"
    and "Listen 6 10 \<notin> set (trace st')"
    and "Accept4 6 9 \<notin> set (trace st')"
    unfolding t x by auto
  with h show ?thesis by simp
qed

subsection \<open>C9: the log file at start-up\<close>

text \<open>
  C9. Start-up renames the log file to the same path with \<open>.bak\<close> appended, opens the
  path again with the flags create, write-only, truncate, close-on-exec and append
  and mode 0644 (420), and stores the descriptor it gets in the second listener.
  Both happen before the tailer thread is created, and start-up itself writes to no
  descriptor.
\<close>

theorem log_file_rotated_at_startup:
  "new_actions st (log_daemon_setup cfg env st) =
     [Setsid,
      Logi (''Magisk v'' @ MAGISK_VERSION cfg @ ''('' @ MAGISK_VER_CODE cfg
            @ '') logger started\<newline>''),
      Set_argv0 ''magisklogd'', Sigaction SIGPIPE,
      Rename (LOGFILE cfg) (LOGFILE cfg @ ''.bak''),
      Open_file (LOGFILE cfg) {O_CREAT, O_WRONLY, O_TRUNC, O_CLOEXEC, O_APPEND} 420 (xopen_fd env),
      Store_fd LOG_EVENT (xopen_fd env),
      Exec_sync (probe_argv cfg ''main''), Exec_sync (probe_argv cfg ''events''),
      Exec_sync (probe_argv cfg ''crash''),
      Chmod ''/dev/null'' 438,
      Pthread_create Monitor_thread, Pthread_detach Monitor_thread,
      Pthread_create Logcat_thread, Pthread_detach Logcat_thread]
   \<and> fd (events (log_daemon_setup cfg env st) LOG_EVENT) = xopen_fd env
   \<and> events (log_daemon_setup cfg env st) HIDE_EVENT = events st HIDE_EVENT
   \<and> writes_of (new_actions st (log_daemon_setup cfg env st)) = []"
  by (simp add: new_actions_def setup_trace setup_events buffers_def)

subsection \<open>C10: the filters are complements\<close>

text \<open>
  C10, as amended. The first filter accepts a line exactly when the bytes of the
  line before its first NUL byte contain \<open>am_proc_start\<close> (\<^verbatim>\<open>strstr\<close> reads the
  buffer as a string); for a line without NUL bytes that is exactly when the line
  contains it. The second filter accepts a line exactly when the first does not. The
  table starts with these two filters, and in every state that holds them a line is
  accepted by exactly one listener, so publishing it makes at most one write.
\<close>

theorem filters_are_complements:
  assumes "filter_fn (events st HIDE_EVENT) = am_proc_start_filter"
    and "filter_fn (events st LOG_EVENT) = magisk_log_filter"
  shows "am_proc_start_filter L = (\<exists>before after. c_str L = before @ ''am_proc_start'' @ after)
   \<and> (CHR 0x00 \<notin> set L \<longrightarrow>
        am_proc_start_filter L = (\<exists>before after. L = before @ ''am_proc_start'' @ after))
   \<and> magisk_log_filter L = (\<not> am_proc_start_filter L)
   \<and> filter_fn (events initial HIDE_EVENT) = am_proc_start_filter
   \<and> filter_fn (events initial LOG_EVENT) = magisk_log_filter
   \<and> (filter_fn (events st HIDE_EVENT) L \<noteq> filter_fn (events st LOG_EVENT) L)
   \<and> length (writes_of (new_actions st (state_of (publish env L st)))) \<le> 1"
proof -
  have a: "am_proc_start_filter L = (\<exists>before after. c_str L = before @ ''am_proc_start'' @ after)"
    unfolding am_filter_sublist sublist_def ..
  then have "CHR 0x00 \<notin> set L \<longrightarrow>
        am_proc_start_filter L = (\<exists>before after. L = before @ ''am_proc_start'' @ after)"
    by (simp add: c_str_no_nul)
  moreover have "magisk_log_filter L = (\<not> am_proc_start_filter L)"
    by (simp add: magisk_log_filter_def)
  moreover have "filter_fn (events initial HIDE_EVENT) = am_proc_start_filter"
    and "filter_fn (events initial LOG_EVENT) = magisk_log_filter"
    by (simp_all add: initial_def)
  moreover have "filter_fn (events st HIDE_EVENT) L \<noteq> filter_fn (events st LOG_EVENT) L"
    using assms by (simp add: magisk_log_filter_def)
  moreover have "length (writes_of (new_actions st (state_of (publish env L st)))) \<le> 1"
    using assms
    by (simp add: publish_defs new_actions_def magisk_log_filter_def
        split: write_result.splits sigdisp.splits)
  ultimately show ?thesis using a by blast
qed

theorem filters_are_complements_witness:
  "filter_fn (events sample_state HIDE_EVENT) = am_proc_start_filter
   \<and> filter_fn (events sample_state LOG_EVENT) = magisk_log_filter
   \<and> CHR 0x00 \<notin> set ''I/am_proc_start: foo\<newline>''
   \<and> am_proc_start_filter ''I/am_proc_start: foo\<newline>''
   \<and> (\<exists>before after. ''I/am_proc_start: foo\<newline>'' = before @ ''am_proc_start'' @ after)
   \<and> \<not> magisk_log_filter ''I/am_proc_start: foo\<newline>''
   \<and> length (writes_of (new_actions sample_state
        (state_of (publish (os_with_gone_peer 7) ''I/am_proc_start: foo\<newline>'' sample_state)))) \<le> 1"
proof -
  have h1: "filter_fn (events sample_state HIDE_EVENT) = am_proc_start_filter"
    and h2: "filter_fn (events sample_state LOG_EVENT) = magisk_log_filter"
    by (simp_all add: sample_state_def)
  have n: "CHR 0x00 \<notin> set ''I/am_proc_start: foo\<newline>''"
    by simp
  have f: "am_proc_start_filter ''I/am_proc_start: foo\<newline>''"
    by code_simp
  from filters_are_complements [OF h1 h2, of "''I/am_proc_start: foo\<newline>''" "os_with_gone_peer 7"]
  have "CHR 0x00 \<notin> set ''I/am_proc_start: foo\<newline>'' \<longrightarrow>
        am_proc_start_filter ''I/am_proc_start: foo\<newline>'' =
          (\<exists>before after. ''I/am_proc_start: foo\<newline>'' = before @ ''am_proc_start'' @ after)"
    and "magisk_log_filter ''I/am_proc_start: foo\<newline>''
          = (\<not> am_proc_start_filter ''I/am_proc_start: foo\<newline>'')"
    and "length (writes_of (new_actions sample_state
        (state_of (publish (os_with_gone_peer 7) ''I/am_proc_start: foo\<newline>'' sample_state)))) \<le> 1"
    by blast+
  with h1 h2 n f show ?thesis by simp
qed

text \<open>
  The claim as first stated, true exactly when the line contains the substring,
  fails for a line that holds it after a NUL byte: the search stops at the NUL.
\<close>

theorem filters_are_complements_counterexample:
  "(\<exists>before after. nul_start_line = before @ ''am_proc_start'' @ after)
   \<and> \<not> am_proc_start_filter nul_start_line
   \<and> magisk_log_filter nul_start_line"
proof -
  have "nul_start_line = (''ab'' @ [CHR 0x00]) @ ''am_proc_start'' @ []"
    by (simp add: nul_start_line_def)
  then have c: "\<exists>before after. nul_start_line = before @ ''am_proc_start'' @ after"
    by blast
  have f: "\<not> am_proc_start_filter nul_start_line"
    by code_simp
  then have "magisk_log_filter nul_start_line"
    by (simp add: magisk_log_filter_def)
  with c f show ?thesis by blast
qed

end
